theory Spec2Isabelle
  imports Complex_Main
begin

unbundle bit_operations_syntax

section \<open>MochiMap API: the chain statistics of \<open>Responder.chain\<close>\<close>

text \<open>
  The development embeds \<open>Responder.chain\<close> of \<open>src/apiResponder.js\<close>: the computation of
  the partial-tfile parameters, the check of the returned tfile against the request, the
  backward loop over the block trailers and the derived metrics of the reply.

  Conventions of the embedding.
  \<^item> The trailer fields are the unsigned quantities of the Mochimo block trailer, so they
    are natural numbers; BigInt values never wrap. Ledger amounts and block rewards are
    unsigned amounts as well.
  \<^item> A JavaScript Number is a double. A Number that holds an integer is an \<open>int\<close>, and
    \<open>fl\<close> rounds an integer to the nearest double (ties to even), which is the integer
    itself up to \<open>2 ^ 53\<close>: \<open>Number(x)\<close> and the additions and subtractions of lines
    105--113 are \<open>fl\<close> of the exact result. The sum \<open>hashes\<close> of the powers
    \<open>Math.pow(2, difficulty)\<close> is a \<open>natnum\<close>, a double that holds a natural number or is
    \<open>Infinity\<close>, and is added up with the rounding of doubles. The other sums of the loop
    add up the 32-bit fields \<open>time0\<close>, \<open>stime\<close>, \<open>tcount\<close> and \<open>difficulty\<close> of the
    trailers of one tfile and are taken exactly. The quotients of the reply are values of
    \<open>jsnum\<close>, which has the two infinities and not-a-number beside the finite quotients.
  \<^item> The collaborators whose code is not in the repository's \<open>src\<close> directory
    (\<open>blockReward\<close>, \<open>projectedSupply\<close> and \<open>round\<close> of \<open>apiUtils\<close>, \<open>Db.findOne\<close>,
    \<open>Mochimo.Trigg.expand\<close>) are the fields of an environment record.
  \<^item> The calls of \<open>Db.findOne\<close> are recorded in the order they are made, in the field
    \<open>lookups\<close> of the loop state.
\<close>

subsection \<open>Numbers\<close>

text \<open>The number of binary digits of a natural number.\<close>

fun bit_length :: "nat \<Rightarrow> nat" where
  "bit_length n = (if n = 0 then 0 else Suc (bit_length (n div 2)))"

text \<open>The double nearest to a natural number, with an exponent as large as needed: up to
  \<open>2 ^ 53\<close> the number itself; above, the number rounded to 53 binary digits, a tie going
  to the even one of the two neighbours.\<close>

definition fl_nat :: "nat \<Rightarrow> nat" where
  "fl_nat n =
     (if n \<le> 2 ^ 53 then n
      else
        let q = 2 ^ (bit_length n - 53); m = n div q; r = n mod q in
        if 2 * r < q then m * q
        else if q < 2 * r then (m + 1) * q
        else if even m then m * q else (m + 1) * q)"

definition fl :: "int \<Rightarrow> int" where
  "fl x = (if x < 0 then - int (fl_nat (nat (- x))) else int (fl_nat (nat x)))"

text \<open>A double that holds a natural number, or \<open>Infinity\<close>. A result that rounds to
  \<open>2 ^ 1024\<close> or more is \<open>Infinity\<close>; \<open>Math.pow(2, d)\<close> is the power itself up to the
  exponent 1023 and \<open>Infinity\<close> above.\<close>

datatype natnum = NatNum nat | NatInfinity

definition num_of_nat :: "nat \<Rightarrow> natnum" where
  "num_of_nat n = (if fl_nat n < 2 ^ 1024 then NatNum (fl_nat n) else NatInfinity)"

definition pow2 :: "nat \<Rightarrow> natnum" where
  "pow2 d = (if d < 1024 then NatNum (2 ^ d) else NatInfinity)"

definition add_num :: "natnum \<Rightarrow> natnum \<Rightarrow> natnum" where
  "add_num x y =
     (case x of
        NatInfinity \<Rightarrow> NatInfinity
      | NatNum m \<Rightarrow> (case y of NatInfinity \<Rightarrow> NatInfinity | NatNum n \<Rightarrow> num_of_nat (m + n)))"

subsection \<open>Data\<close>

record trailer =
  bnum :: nat
  bhash :: string
  phash :: string
  mroot :: string
  nonce :: string
  mfee :: nat
  tcount :: nat
  time0 :: nat
  stime :: nat
  difficulty :: nat

text \<open>What \<open>await Db.findOne('block', query)\<close> followed by \<open>Db.util.filterLong(ng)\<close> gives
  inside the \<open>try\<close>: an exception, \<open>null\<close>, or a document whose \<open>amount\<close> may be absent.\<close>

datatype db_result = DbThrows | DbNull | DbDoc "nat option"

datatype jsnum = Fin rat | PosInfinity | NegInfinity | NaN

record env =
  blockReward :: "nat \<Rightarrow> nat"
  projectedSupply :: "nat option \<Rightarrow> int"
  findOne :: "nat \<Rightarrow> string \<Rightarrow> db_result"
  round_js :: "jsnum \<Rightarrow> jsnum"
  expand :: "string \<Rightarrow> string"

text \<open>The variables of the loop of \<open>Responder.chain\<close> (lines 115--124), with \<open>supply\<close> as
  \<open>supply_v\<close> and \<open>chain\<close> as the pair \<open>chain_v = (maxsupply, supply)\<close>.\<close>

record accum =
  supply_v :: "nat option"
  chain_v :: "(int \<times> nat) option"
  rewards :: nat
  pseudorate :: nat
  nonNeogenesis :: nat
  transactions :: nat
  blockTimes :: int
  hashesTimes :: int
  hashes :: natnum
  difficulties :: nat
  lookups :: "(nat \<times> string) list"

record json =
  j_bhash :: string
  j_phash :: string
  j_mroot :: string
  j_nonce :: string
  j_haiku :: "string option"
  j_bnum :: nat
  j_mfee :: nat
  j_time0 :: nat
  j_stime :: nat
  j_blocktime :: int
  j_blocktime_avg :: jsnum
  j_tcount :: nat
  j_tcount_avg :: jsnum
  j_tcountpsec :: jsnum
  j_tcountpsec_avg :: jsnum
  j_txfees :: nat
  j_reward :: nat
  j_mreward :: nat
  j_difficulty :: nat
  j_difficulty_avg :: jsnum
  j_hashrate :: jsnum
  j_hashrate_avg :: jsnum
  j_pseudorate_avg :: jsnum
  j_maxsupply :: int
  j_supply :: nat

datatype response = Ok200 json | NotFound404 | Error500

subsection \<open>The window parameters (lines 101--108)\<close>

definition target :: int where
  "target = 768"

text \<open>\<open>if (typeof blockNumber === 'undefined') blockNumber = blockHex;\<close> and then the
  default \<open>-target\<close>: \<open>requested\<close> is the request before \<open>Number(blockNumber)\<close> of line
  105, which is taken to denote an integer.\<close>

definition requested :: "int option \<Rightarrow> int option \<Rightarrow> int" where
  "requested blockNumber blockHex =
     (case (case blockNumber of None \<Rightarrow> blockHex | Some b \<Rightarrow> Some b) of
        None \<Rightarrow> - target
      | Some b \<Rightarrow> b)"

text \<open>Lines 107 and 108, for the Number \<open>blockNumber\<close>.\<close>

definition tf_count :: "int \<Rightarrow> int" where
  "tf_count blockNumber = (if blockNumber < target then fl (\<bar>blockNumber\<bar> + 1) else target)"

definition tf_start :: "int \<Rightarrow> int" where
  "tf_start blockNumber =
     (if blockNumber > - 1 then fl (blockNumber - fl (tf_count blockNumber - 1))
      else blockNumber)"

subsection \<open>The backward loop (lines 125--153)\<close>

text \<open>\<open>bnum & 0xffn\<close> as a condition.\<close>

definition nonNeo :: "trailer \<Rightarrow> bool" where
  "nonNeo t = (bnum t AND 255 \<noteq> 0)"

text \<open>\<open>!supply\<close>: true for \<open>undefined\<close> and for \<open>0n\<close>.\<close>

definition not_supply :: "nat option \<Rightarrow> bool" where
  "not_supply s = (case s of None \<Rightarrow> True | Some v \<Rightarrow> v = 0)"

text \<open>The body of the \<open>try\<close> at a (neo)genesis trailer; \<open>rT\<close> is \<open>rTrailer\<close>. An exception
  and a falsy \<open>ng\<close> or \<open>ng.amount\<close> leave every variable as it was.\<close>

definition neogenesis :: "env \<Rightarrow> trailer \<Rightarrow> accum \<Rightarrow> trailer \<Rightarrow> accum" where
  "neogenesis e rT a t =
     (let a1 = a\<lparr>lookups := lookups a @ [(bnum t, bhash t)]\<rparr> in
      case findOne e (bnum t) (bhash t) of
        DbThrows \<Rightarrow> a1
      | DbNull \<Rightarrow> a1
      | DbDoc None \<Rightarrow> a1
      | DbDoc (Some amount) \<Rightarrow>
          if amount = 0 then a1
          else
            let s = amount + rewards a;
                lostsupply = projectedSupply e (Some (bnum rT)) - int s;
                maxsupply = projectedSupply e None - lostsupply
            in a1\<lparr>supply_v := Some s, chain_v := Some (maxsupply, s)\<rparr>)"

definition step :: "env \<Rightarrow> trailer \<Rightarrow> accum \<Rightarrow> trailer \<Rightarrow> accum" where
  "step e rT a t =
     (if nonNeo t then
        let dT = int (stime t) - int (time0 t);
            a1 = a\<lparr>difficulties := difficulties a + difficulty t,
                   blockTimes := blockTimes a + dT,
                   nonNeogenesis := nonNeogenesis a + 1\<rparr>
        in if tcount t \<noteq> 0 then
             a1\<lparr>transactions := transactions a1 + tcount t,
                hashesTimes := hashesTimes a1 + dT,
                hashes := add_num (hashes a1) (pow2 (difficulty t)),
                rewards := rewards a1 + (blockReward e (bnum t) + mfee t * tcount t)\<rparr>
           else a1\<lparr>pseudorate := pseudorate a1 + 1\<rparr>
      else if not_supply (supply_v a) then neogenesis e rT a t
      else a)"

definition acc0 :: accum where
  "acc0 = \<lparr>supply_v = None, chain_v = None, rewards = 0, pseudorate = 0, nonNeogenesis = 0,
           transactions = 0, blockTimes = 0, hashesTimes = 0, hashes = NatNum 0, difficulties = 0,
           lookups = []\<rparr>"

text \<open>The loop takes the trailers from the last index down to 0: \<open>scan\<close> runs over the
  trailers in that order.\<close>

fun scan :: "env \<Rightarrow> trailer \<Rightarrow> accum \<Rightarrow> trailer list \<Rightarrow> accum" where
  "scan e rT a [] = a"
| "scan e rT a (t # ts) = scan e rT (step e rT a t) ts"

subsection \<open>The reply (lines 154--190)\<close>

definition js_div :: "int \<Rightarrow> int \<Rightarrow> jsnum" where
  "js_div x y =
     (if y = 0 then (if x = 0 then NaN else if 0 < x then PosInfinity else NegInfinity)
      else Fin (of_int x / of_int y))"

text \<open>The quotient of a \<open>natnum\<close> by an integer Number.\<close>

definition num_div :: "natnum \<Rightarrow> int \<Rightarrow> jsnum" where
  "num_div x y =
     (case x of
        NatNum n \<Rightarrow> js_div (int n) y
      | NatInfinity \<Rightarrow> (if y < 0 then NegInfinity else PosInfinity))"

definition zeros64 :: string where
  "zeros64 = replicate 64 CHR ''0''"

definition make_json :: "env \<Rightarrow> trailer \<Rightarrow> accum \<Rightarrow> int \<times> nat \<Rightarrow> json" where
  "make_json e rT a c =
     (let isNeogenesis = \<not> nonNeo rT;
          blocktime = (if isNeogenesis then 0 else int (stime rT) - int (time0 rT));
          txfees = (if isNeogenesis then 0 else tcount rT * mfee rT);
          reward = (if isNeogenesis then 0 else blockReward e (bnum rT))
      in \<lparr>j_bhash = bhash rT, j_phash = phash rT, j_mroot = mroot rT, j_nonce = nonce rT,
          j_haiku = (if nonce rT \<noteq> zeros64 then Some (expand e (nonce rT)) else None),
          j_bnum = bnum rT, j_mfee = mfee rT, j_time0 = time0 rT, j_stime = stime rT,
          j_blocktime = blocktime,
          j_blocktime_avg = round_js e (js_div (blockTimes a) (int (nonNeogenesis a))),
          j_tcount = tcount rT,
          j_tcount_avg = round_js e (js_div (int (transactions a)) (int (nonNeogenesis a))),
          j_tcountpsec = round_js e (js_div (int (tcount rT)) blocktime),
          j_tcountpsec_avg = round_js e (js_div (int (transactions a)) (blockTimes a)),
          j_txfees = txfees,
          j_reward = reward,
          j_mreward = (if isNeogenesis then 0 else txfees + reward),
          j_difficulty = difficulty rT,
          j_difficulty_avg = round_js e (js_div (int (difficulties a)) (int (nonNeogenesis a))),
          j_hashrate = (if tcount rT = 0 then Fin 0
                        else round_js e (num_div (pow2 (difficulty rT)) blocktime)),
          j_hashrate_avg = round_js e (num_div (hashes a) (hashesTimes a)),
          j_pseudorate_avg = round_js e (js_div (int (pseudorate a)) (int (nonNeogenesis a))),
          j_maxsupply = fst c, j_supply = snd c\<rparr>)"

text \<open>\<open>Responder.chain\<close> from the tfile on: \<open>request\<close> is the request before line 105,
  \<open>blockNumber\<close> its Number, and \<open>tfile\<close> is what \<open>Mochimo.getTfile\<close> resolved
  to (\<open>None\<close> when falsy), oldest trailer first. The test of line 113 compares
  \<open>blockNumber\<close> with \<open>Number(rTrailer.bnum)\<close>. The result is the reply and the lookups
  made. Reading \<open>tfile.trailer(-1)\<close> of a tfile without trailers is taken to throw, which the
  outer \<open>catch\<close> answers with status 500.\<close>

definition chain_of :: "env \<Rightarrow> int \<Rightarrow> trailer list option \<Rightarrow> response \<times> (nat \<times> string) list" where
  "chain_of e request tfile =
     (case tfile of
        None \<Rightarrow> (NotFound404, [])
      | Some ts \<Rightarrow>
          if ts = [] then (Error500, [])
          else
            let blockNumber = fl request; rT = last ts in
            if blockNumber < 0 \<or> blockNumber = fl (int (bnum rT)) then
              let a = scan e rT acc0 (rev ts) in
              (case chain_v a of
                 None \<Rightarrow> (NotFound404, lookups a)
               | Some c \<Rightarrow> (Ok200 (make_json e rT a c), lookups a))
            else (NotFound404, []))"

definition chain_request ::
  "env \<Rightarrow> (int \<Rightarrow> int \<Rightarrow> trailer list option) \<Rightarrow> int option \<Rightarrow> int option
     \<Rightarrow> response \<times> (nat \<times> string) list" where
  "chain_request e getTfile bn bh =
     (let request = requested bn bh; blockNumber = fl request
      in chain_of e request (getTfile (tf_start blockNumber) (tf_count blockNumber)))"

subsection \<open>The classes of trailers and the sums of a window\<close>

text \<open>The condition \<open>ng && ng.amount\<close> at the trailer \<open>t\<close>.\<close>

definition lookup_ok :: "env \<Rightarrow> trailer \<Rightarrow> bool" where
  "lookup_ok e t =
     (case findOne e (bnum t) (bhash t) of
        DbDoc (Some amount) \<Rightarrow> amount \<noteq> 0
      | _ \<Rightarrow> False)"

text \<open>The classes of the specification, by the block number and the transaction count,
  and the quantities a trailer contributes.\<close>

definition is_boundary :: "trailer \<Rightarrow> bool" where
  "is_boundary t = (bnum t mod 256 = 0)"

definition is_pseudo :: "trailer \<Rightarrow> bool" where
  "is_pseudo t = (bnum t mod 256 \<noteq> 0 \<and> tcount t = 0)"

definition is_normal :: "trailer \<Rightarrow> bool" where
  "is_normal t = (bnum t mod 256 \<noteq> 0 \<and> 0 < tcount t)"

definition solve_time :: "trailer \<Rightarrow> int" where
  "solve_time t = int (stime t) - int (time0 t)"

definition reward_of :: "env \<Rightarrow> trailer \<Rightarrow> nat" where
  "reward_of e t = blockReward e (bnum t) + mfee t * tcount t"

definition db_key :: "trailer \<Rightarrow> nat \<times> string" where
  "db_key t = (bnum t, bhash t)"

text \<open>The lookups of a pass that asks at every boundary trailer until the first lookup
  that succeeds, and at none after it; the trailers are in the order of the pass.\<close>

fun lookups_until :: "env \<Rightarrow> trailer list \<Rightarrow> (nat \<times> string) list" where
  "lookups_until e [] = []"
| "lookups_until e (t # ts) =
     (if is_boundary t then db_key t # (if lookup_ok e t then [] else lookups_until e ts)
      else lookups_until e ts)"

text \<open>The supply and the maximum supply of a reply.\<close>

definition supply_of :: "response \<Rightarrow> nat option" where
  "supply_of r = (case r of Ok200 j \<Rightarrow> Some (j_supply j) | _ \<Rightarrow> None)"

definition maxsupply_of :: "response \<Rightarrow> int option" where
  "maxsupply_of r = (case r of Ok200 j \<Rightarrow> Some (j_maxsupply j) | _ \<Rightarrow> None)"

subsection \<open>Sample data\<close>

text \<open>A small environment and a trailer with a given block number and transaction
  count, for evaluating the definitions on concrete windows.\<close>

definition sample_env :: env where
  "sample_env =
     \<lparr>blockReward = (\<lambda>n. 5),
      projectedSupply = (\<lambda>x. case x of None \<Rightarrow> 5000 | Some n \<Rightarrow> int n),
      findOne = (\<lambda>n h. if n = 256 then DbDoc (Some 1000)
                        else if n = 512 then DbDoc (Some 0) else DbNull),
      round_js = (\<lambda>x. x), expand = (\<lambda>s. s)\<rparr>"

definition sample_trailer :: "nat \<Rightarrow> nat \<Rightarrow> trailer" where
  "sample_trailer n tc =
     \<lparr>bnum = n, bhash = ''h'', phash = ''p'', mroot = ''m'', nonce = zeros64,
      mfee = 2, tcount = tc, time0 = 100, stime = 110, difficulty = 3\<rparr>"

text \<open>The same trailer with a given difficulty, and an environment with an amount stored
  for the block \<open>2 ^ 53\<close>.\<close>

definition sample_trailer_d :: "nat \<Rightarrow> nat \<Rightarrow> nat \<Rightarrow> trailer" where
  "sample_trailer_d n tc d = (sample_trailer n tc)\<lparr>difficulty := d\<rparr>"

definition sample_env_big :: env where
  "sample_env_big =
     sample_env\<lparr>findOne := (\<lambda>n h. if n = 2 ^ 53 then DbDoc (Some 1000) else DbNull)\<rparr>"

section \<open>Properties\<close>

subsection \<open>Rounding to a double\<close>

declare bit_length.simps [simp del]

lemma fl_nat_small: "n \<le> 2 ^ 53 \<Longrightarrow> fl_nat n = n"
  by (simp add: fl_nat_def)

lemma fl_small: "\<bar>x\<bar> \<le> 2 ^ 53 \<Longrightarrow> fl x = x"
  by (simp add: fl_def fl_nat_small nat_le_iff)

lemma bit_length_bound: "0 < n \<Longrightarrow> 2 ^ (bit_length n - 1) \<le> n"
proof (induction n rule: bit_length.induct)
  case (1 n)
  show ?case
  proof (cases "n div 2 = 0")
    case True
    with "1.prems" show ?thesis
      by (simp add: bit_length.simps [of n] bit_length.simps [of 0])
  next
    case False
    with "1.IH" "1.prems" have "2 ^ (bit_length (n div 2) - 1) \<le> n div 2" by simp
    moreover from False have "0 < bit_length (n div 2)"
      by (simp add: bit_length.simps [of "n div 2"])
    ultimately have "2 ^ bit_length (n div 2) \<le> 2 * (n div 2)"
      by (cases "bit_length (n div 2)") simp_all
    also have "\<dots> \<le> n" by simp
    finally show ?thesis using "1.prems" by (simp add: bit_length.simps [of n])
  qed
qed

lemma fl_nat_pos: "0 < n \<Longrightarrow> 0 < fl_nat n"
proof (cases "n \<le> 2 ^ 53")
  case True
  then show "0 < n \<Longrightarrow> ?thesis" by (simp add: fl_nat_small)
next
  case False
  assume n: "0 < n"
  let ?q = "(2::nat) ^ (bit_length n - 53)"
  have "?q \<le> 2 ^ (bit_length n - 1)" by (rule power_increasing) simp_all
  also have "\<dots> \<le> n" using n by (rule bit_length_bound)
  finally have "?q \<le> n" .
  then have "0 < n div ?q" by (simp add: div_greater_zero_iff)
  then have "0 < n div ?q * ?q" by simp
  with False show ?thesis by (simp add: fl_nat_def Let_def)
qed

lemma fl_neg_iff: "fl x < 0 \<longleftrightarrow> x < 0"
proof (cases "x < 0")
  case True
  then have "0 < nat (- x)" by simp
  from fl_nat_pos [OF this] True show ?thesis by (simp add: fl_def)
next
  case False
  then show ?thesis by (simp add: fl_def)
qed

lemma add_num_exact: "m + n \<le> 2 ^ 53 \<Longrightarrow> add_num (NatNum m) (NatNum n) = NatNum (m + n)"
proof -
  assume a: "m + n \<le> 2 ^ 53"
  have "(2::nat) ^ 53 < 2 ^ 1024" by (rule power_strict_increasing) simp_all
  with a have "m + n < 2 ^ 1024" by (rule le_less_trans)
  with a show ?thesis by (simp add: add_num_def num_of_nat_def fl_nat_small)
qed

lemma pow2_exact: "2 ^ d \<le> (2::nat) ^ 53 \<Longrightarrow> pow2 d = NatNum (2 ^ d)"
proof -
  assume a: "2 ^ d \<le> (2::nat) ^ 53"
  have "(1::nat) < 2" by simp
  from power_le_imp_le_exp [OF this a] show ?thesis by (simp add: pow2_def)
qed

subsection \<open>One pass of the loop body\<close>

text \<open>The test \<open>bnum & 0xffn\<close> is the test that the block number is no multiple of 256.\<close>

lemma nonNeo_iff: "nonNeo t \<longleftrightarrow> bnum t mod 256 \<noteq> 0"
proof -
  have "bnum t AND 255 = take_bit 8 (bnum t)"
    by (simp add: take_bit_eq_mask mask_eq_exp_minus_1)
  then show ?thesis by (simp add: nonNeo_def take_bit_eq_mod)
qed

lemma neogenesis_sums:
  "nonNeogenesis (neogenesis e rT a t) = nonNeogenesis a"
  "blockTimes (neogenesis e rT a t) = blockTimes a"
  "difficulties (neogenesis e rT a t) = difficulties a"
  "pseudorate (neogenesis e rT a t) = pseudorate a"
  "transactions (neogenesis e rT a t) = transactions a"
  "hashesTimes (neogenesis e rT a t) = hashesTimes a"
  "hashes (neogenesis e rT a t) = hashes a"
  "rewards (neogenesis e rT a t) = rewards a"
  by (simp_all add: neogenesis_def Let_def split: db_result.split option.split)

lemma step_nonNeo:
  "nonNeo t \<Longrightarrow> step e rT a t =
     (if tcount t \<noteq> 0 then
        a\<lparr>difficulties := difficulties a + difficulty t,
          blockTimes := blockTimes a + (int (stime t) - int (time0 t)),
          nonNeogenesis := nonNeogenesis a + 1,
          transactions := transactions a + tcount t,
          hashesTimes := hashesTimes a + (int (stime t) - int (time0 t)),
          hashes := add_num (hashes a) (pow2 (difficulty t)),
          rewards := rewards a + (blockReward e (bnum t) + mfee t * tcount t)\<rparr>
      else
        a\<lparr>difficulties := difficulties a + difficulty t,
          blockTimes := blockTimes a + (int (stime t) - int (time0 t)),
          nonNeogenesis := nonNeogenesis a + 1,
          pseudorate := pseudorate a + 1\<rparr>)"
  by (simp add: step_def Let_def)

lemma step_neo:
  "\<not> nonNeo t \<Longrightarrow> step e rT a t = (if not_supply (supply_v a) then neogenesis e rT a t else a)"
  by (simp add: step_def)

text \<open>
  Claim C5, as stated: a normal trailer adds \<open>2 ^ difficulty\<close> to \<open>hashes\<close>. After a
  normal trailer of difficulty 0 the sum is 1; a normal trailer of difficulty 53 then gives
  \<open>2 ^ 53\<close>, not \<open>1 + 2 ^ 53\<close>, which is no double.
\<close>

theorem step_accumulates_counterexample:
  "bnum (sample_trailer_d 258 4 53) mod 256 \<noteq> 0 \<and> 0 < tcount (sample_trailer_d 258 4 53) \<and>
   hashes (step sample_env (sample_trailer_d 258 4 53) acc0 (sample_trailer_d 257 4 0)) = NatNum 1 \<and>
   hashes (step sample_env (sample_trailer_d 258 4 53)
             (step sample_env (sample_trailer_d 258 4 53) acc0 (sample_trailer_d 257 4 0))
             (sample_trailer_d 258 4 53)) = NatNum (2 ^ 53) \<and>
   NatNum (2 ^ 53) \<noteq> NatNum (1 + 2 ^ difficulty (sample_trailer_d 258 4 53))"
  by (simp add: step_def nonNeo_iff sample_trailer_d_def sample_trailer_def acc0_def Let_def
      add_num_def pow2_def num_of_nat_def fl_nat_def bit_length.simps)

text \<open>
  Claim C5, amended. In the backward loop a trailer whose block number is no multiple of
  256 adds 1 to \<open>nonNeogenesis\<close>, its solve time \<open>stime - time0\<close> to \<open>blockTimes\<close> and its
  difficulty to \<open>difficulties\<close>. With no transactions (a pseudo block) it adds, beyond that,
  only 1 to \<open>pseudorate\<close>; with transactions (a normal block) it adds its transaction count
  to \<open>transactions\<close>, its solve time to \<open>hashesTimes\<close> and
  \<open>blockReward bnum + mfee * tcount\<close> to \<open>rewards\<close>, and it adds \<open>Math.pow(2, difficulty)\<close>
  to \<open>hashes\<close> as doubles are added: the result is the nearest double, \<open>Infinity\<close> from the
  difficulty 1024 on, and it is the exact sum \<open>hashes + 2 ^ difficulty\<close> whenever that is at
  most \<open>2 ^ 53\<close>. A trailer whose block number is a multiple of 256 changes none of these
  eight sums.
\<close>

theorem step_accumulates:
  "(bnum t mod 256 \<noteq> 0 \<longrightarrow>
      nonNeogenesis (step e rT a t) = nonNeogenesis a + 1 \<and>
      blockTimes (step e rT a t) = blockTimes a + (int (stime t) - int (time0 t)) \<and>
      difficulties (step e rT a t) = difficulties a + difficulty t \<and>
      (tcount t = 0 \<longrightarrow>
         pseudorate (step e rT a t) = pseudorate a + 1 \<and>
         transactions (step e rT a t) = transactions a \<and>
         hashesTimes (step e rT a t) = hashesTimes a \<and>
         hashes (step e rT a t) = hashes a \<and>
         rewards (step e rT a t) = rewards a) \<and>
      (0 < tcount t \<longrightarrow>
         pseudorate (step e rT a t) = pseudorate a \<and>
         transactions (step e rT a t) = transactions a + tcount t \<and>
         hashesTimes (step e rT a t) = hashesTimes a + (int (stime t) - int (time0 t)) \<and>
         hashes (step e rT a t) = add_num (hashes a) (pow2 (difficulty t)) \<and>
         (\<forall>h. hashes a = NatNum h \<and> h + 2 ^ difficulty t \<le> 2 ^ 53 \<longrightarrow>
              hashes (step e rT a t) = NatNum (h + 2 ^ difficulty t)) \<and>
         (1024 \<le> difficulty t \<longrightarrow> hashes (step e rT a t) = NatInfinity) \<and>
         rewards (step e rT a t) = rewards a + (blockReward e (bnum t) + mfee t * tcount t))) \<and>
   (bnum t mod 256 = 0 \<longrightarrow>
      nonNeogenesis (step e rT a t) = nonNeogenesis a \<and>
      blockTimes (step e rT a t) = blockTimes a \<and>
      difficulties (step e rT a t) = difficulties a \<and>
      pseudorate (step e rT a t) = pseudorate a \<and>
      transactions (step e rT a t) = transactions a \<and>
      hashesTimes (step e rT a t) = hashesTimes a \<and>
      hashes (step e rT a t) = hashes a \<and>
      rewards (step e rT a t) = rewards a)"
proof (cases "nonNeo t")
  case True
  then have nb: "bnum t mod 256 \<noteq> 0" by (simp add: nonNeo_iff)
  have ex: "add_num (hashes a) (pow2 (difficulty t)) = NatNum (h + 2 ^ difficulty t)"
    if "hashes a = NatNum h" "h + 2 ^ difficulty t \<le> 2 ^ 53" for h
  proof -
    from that(2) have "2 ^ difficulty t \<le> (2::nat) ^ 53" by simp
    then have "pow2 (difficulty t) = NatNum (2 ^ difficulty t)" by (rule pow2_exact)
    with that show ?thesis by (simp only: add_num_exact)
  qed
  have inf: "add_num (hashes a) (pow2 (difficulty t)) = NatInfinity" if "1024 \<le> difficulty t"
    using that by (simp add: add_num_def pow2_def split: natnum.split)
  from nb ex inf show ?thesis by (simp add: step_nonNeo [OF True])
next
  case False
  then have "bnum t mod 256 = 0" by (simp add: nonNeo_iff)
  then show ?thesis by (simp add: step_neo [OF False] neogenesis_sums)
qed

theorem step_accumulates_witness:
  "bnum (sample_trailer 257 4) mod 256 \<noteq> 0 \<and> 0 < tcount (sample_trailer 257 4) \<and>
   rewards (step sample_env (sample_trailer 257 4) acc0 (sample_trailer 257 4)) = 13 \<and>
   hashes (step sample_env (sample_trailer 257 4) acc0 (sample_trailer 257 4)) = NatNum 8 \<and>
   bnum (sample_trailer 255 0) mod 256 \<noteq> 0 \<and> tcount (sample_trailer 255 0) = 0 \<and>
   pseudorate (step sample_env (sample_trailer 257 4) acc0 (sample_trailer 255 0)) = 1 \<and>
   blockTimes (step sample_env (sample_trailer 257 4) acc0 (sample_trailer 255 0)) = 10 \<and>
   bnum (sample_trailer 256 0) mod 256 = 0 \<and>
   nonNeogenesis (step sample_env (sample_trailer 257 4) acc0 (sample_trailer 256 0)) = 0"
  using step_accumulates [of "sample_trailer 257 4" sample_env "sample_trailer 257 4" acc0]
    step_accumulates [of "sample_trailer 255 0" sample_env "sample_trailer 257 4" acc0]
    step_accumulates [of "sample_trailer 256 0" sample_env "sample_trailer 257 4" acc0]
  by (simp add: sample_trailer_def sample_env_def acc0_def add_num_def pow2_def num_of_nat_def
      fl_nat_small)

subsection \<open>The partial-tfile parameters\<close>







subsection \<open>The pass over a window\<close>

lemma is_boundary_iff: "is_boundary t \<longleftrightarrow> \<not> nonNeo t"
  by (simp add: is_boundary_def nonNeo_iff)

lemma scan_append: "scan e rT a (xs @ ys) = scan e rT (scan e rT a xs) ys"
  by (induction xs arbitrary: a) simp_all

lemma neogenesis_fail:
  "\<not> lookup_ok e t \<Longrightarrow> neogenesis e rT a t = a\<lparr>lookups := lookups a @ [db_key t]\<rparr>"
  by (simp add: neogenesis_def lookup_ok_def db_key_def Let_def split: db_result.splits option.splits)

lemma neogenesis_ok:
  "findOne e (bnum t) (bhash t) = DbDoc (Some amount) \<Longrightarrow> amount \<noteq> 0 \<Longrightarrow>
   neogenesis e rT a t =
     a\<lparr>lookups := lookups a @ [db_key t],
       supply_v := Some (amount + rewards a),
       chain_v := Some (projectedSupply e None
                         - (projectedSupply e (Some (bnum rT)) - int (amount + rewards a)),
                        amount + rewards a)\<rparr>"
  by (simp add: neogenesis_def db_key_def Let_def)

lemma lookup_ok_cases:
  "lookup_ok e t \<Longrightarrow> \<exists>amount. findOne e (bnum t) (bhash t) = DbDoc (Some amount) \<and> amount \<noteq> 0"
  by (auto simp: lookup_ok_def split: db_result.splits option.splits)

lemma step_boundary_fail:
  "is_boundary t \<Longrightarrow> supply_v a = None \<Longrightarrow> \<not> lookup_ok e t \<Longrightarrow>
   step e rT a t = a\<lparr>lookups := lookups a @ [db_key t]\<rparr>"
  by (simp add: is_boundary_iff step_neo not_supply_def neogenesis_fail)

lemma step_boundary_ok:
  "is_boundary t \<Longrightarrow> supply_v a = None \<Longrightarrow>
   findOne e (bnum t) (bhash t) = DbDoc (Some amount) \<Longrightarrow> amount \<noteq> 0 \<Longrightarrow>
   step e rT a t =
     a\<lparr>lookups := lookups a @ [db_key t],
       supply_v := Some (amount + rewards a),
       chain_v := Some (projectedSupply e None
                         - (projectedSupply e (Some (bnum rT)) - int (amount + rewards a)),
                        amount + rewards a)\<rparr>"
  by (simp add: is_boundary_iff step_neo not_supply_def neogenesis_ok)

lemma step_boundary_done:
  "is_boundary t \<Longrightarrow> supply_v a = Some s \<Longrightarrow> s \<noteq> 0 \<Longrightarrow> step e rT a t = a"
  by (simp add: is_boundary_iff step_neo not_supply_def)

lemma step_other_supply:
  "\<not> is_boundary t \<Longrightarrow>
   supply_v (step e rT a t) = supply_v a \<and> chain_v (step e rT a t) = chain_v a \<and>
   lookups (step e rT a t) = lookups a"
  by (simp add: is_boundary_iff step_nonNeo)

lemma is_pseudo_iff: "is_pseudo t \<longleftrightarrow> \<not> is_boundary t \<and> tcount t = 0"
  by (simp add: is_pseudo_def is_boundary_def)

lemma is_normal_iff: "is_normal t \<longleftrightarrow> \<not> is_boundary t \<and> tcount t \<noteq> 0"
  by (simp add: is_normal_def is_boundary_def)

lemma step_not_boundary:
  "\<not> is_boundary t \<Longrightarrow> step e rT a t =
     (if tcount t \<noteq> 0 then
        a\<lparr>difficulties := difficulties a + difficulty t,
          blockTimes := blockTimes a + solve_time t,
          nonNeogenesis := nonNeogenesis a + 1,
          transactions := transactions a + tcount t,
          hashesTimes := hashesTimes a + solve_time t,
          hashes := add_num (hashes a) (pow2 (difficulty t)),
          rewards := rewards a + reward_of e t\<rparr>
      else
        a\<lparr>difficulties := difficulties a + difficulty t,
          blockTimes := blockTimes a + solve_time t,
          nonNeogenesis := nonNeogenesis a + 1,
          pseudorate := pseudorate a + 1\<rparr>)"
  by (simp add: is_boundary_iff step_nonNeo solve_time_def reward_of_def)

lemma step_boundary:
  "is_boundary t \<Longrightarrow>
   step e rT a t = (if not_supply (supply_v a) then neogenesis e rT a t else a)"
  by (simp add: is_boundary_iff step_neo)

lemma step_sums:
  "nonNeogenesis (step e rT a t) = nonNeogenesis a + (if is_boundary t then 0 else 1)"
  "blockTimes (step e rT a t) = blockTimes a + (if is_boundary t then 0 else solve_time t)"
  "difficulties (step e rT a t) = difficulties a + (if is_boundary t then 0 else difficulty t)"
  "pseudorate (step e rT a t) = pseudorate a + (if is_pseudo t then 1 else 0)"
  "transactions (step e rT a t) = transactions a + (if is_normal t then tcount t else 0)"
  "hashesTimes (step e rT a t) = hashesTimes a + (if is_normal t then solve_time t else 0)"
  "hashes (step e rT a t) = (if is_normal t then add_num (hashes a) (pow2 (difficulty t)) else hashes a)"
  "rewards (step e rT a t) = rewards a + (if is_normal t then reward_of e t else 0)"
  by (cases "is_boundary t";
      simp add: is_pseudo_iff is_normal_iff step_not_boundary step_boundary neogenesis_sums)+

lemma scan_nonNeogenesis:
  "nonNeogenesis (scan e rT a xs) = nonNeogenesis a + length (filter (\<lambda>t. \<not> is_boundary t) xs)"
  by (induction xs arbitrary: a) (simp_all add: step_sums)

lemma scan_blockTimes:
  "blockTimes (scan e rT a xs) =
     blockTimes a + sum_list (map solve_time (filter (\<lambda>t. \<not> is_boundary t) xs))"
  by (induction xs arbitrary: a) (simp_all add: step_sums)

lemma scan_difficulties:
  "difficulties (scan e rT a xs) =
     difficulties a + sum_list (map difficulty (filter (\<lambda>t. \<not> is_boundary t) xs))"
  by (induction xs arbitrary: a) (simp_all add: step_sums)

lemma scan_pseudorate:
  "pseudorate (scan e rT a xs) = pseudorate a + length (filter is_pseudo xs)"
  by (induction xs arbitrary: a) (simp_all add: step_sums)

lemma scan_transactions:
  "transactions (scan e rT a xs) = transactions a + sum_list (map tcount (filter is_normal xs))"
  by (induction xs arbitrary: a) (simp_all add: step_sums)

lemma scan_hashesTimes:
  "hashesTimes (scan e rT a xs) =
     hashesTimes a + sum_list (map solve_time (filter is_normal xs))"
  by (induction xs arbitrary: a) (simp_all add: step_sums)

lemma scan_hashes:
  "hashes (scan e rT a xs) =
     foldl add_num (hashes a) (map (\<lambda>t. pow2 (difficulty t)) (filter is_normal xs))"
  by (induction xs arbitrary: a) (simp_all add: step_sums)

lemma scan_rewards:
  "rewards (scan e rT a xs) = rewards a + sum_list (map (reward_of e) (filter is_normal xs))"
  by (induction xs arbitrary: a) (simp_all add: step_sums)

lemma scan_done:
  "supply_v a = Some s \<Longrightarrow> s \<noteq> 0 \<Longrightarrow>
   supply_v (scan e rT a xs) = Some s \<and> chain_v (scan e rT a xs) = chain_v a \<and>
   lookups (scan e rT a xs) = lookups a"
proof (induction xs arbitrary: a)
  case Nil
  then show ?case by simp
next
  case (Cons t ts)
  show ?case
  proof (cases "is_boundary t")
    case True
    with Cons.prems have "step e rT a t = a" by (simp add: step_boundary_done)
    with Cons show ?thesis by simp
  next
    case False
    from step_other_supply [OF False, of e rT a] Cons.prems
    have "supply_v (step e rT a t) = Some s" "chain_v (step e rT a t) = chain_v a"
      "lookups (step e rT a t) = lookups a" by simp_all
    with Cons.IH [of "step e rT a t"] Cons.prems show ?thesis by simp
  qed
qed

lemma scan_all_fail:
  "supply_v a = None \<Longrightarrow> \<forall>t\<in>set xs. is_boundary t \<longrightarrow> \<not> lookup_ok e t \<Longrightarrow>
   supply_v (scan e rT a xs) = None \<and> chain_v (scan e rT a xs) = chain_v a \<and>
   lookups (scan e rT a xs) = lookups a @ map db_key (filter is_boundary xs)"
proof (induction xs arbitrary: a)
  case Nil
  then show ?case by simp
next
  case (Cons t ts)
  show ?case
  proof (cases "is_boundary t")
    case True
    with Cons.prems have st: "step e rT a t = a\<lparr>lookups := lookups a @ [db_key t]\<rparr>"
      by (simp add: step_boundary_fail)
    from Cons.prems have "\<forall>t\<in>set ts. is_boundary t \<longrightarrow> \<not> lookup_ok e t" by simp
    from Cons.IH [OF _ this, of "step e rT a t"] st Cons.prems(1) True
    show ?thesis by simp
  next
    case False
    from step_other_supply [OF False, of e rT a] Cons.prems
    have s: "supply_v (step e rT a t) = None" "chain_v (step e rT a t) = chain_v a"
      "lookups (step e rT a t) = lookups a" by simp_all
    from Cons.prems have "\<forall>t\<in>set ts. is_boundary t \<longrightarrow> \<not> lookup_ok e t" by simp
    from Cons.IH [OF s(1) this] s False show ?thesis by simp
  qed
qed

lemma scan_lookups:
  "supply_v a = None \<Longrightarrow> lookups (scan e rT a xs) = lookups a @ lookups_until e xs"
proof (induction xs arbitrary: a)
  case Nil
  then show ?case by simp
next
  case (Cons t ts)
  show ?case
  proof (cases "is_boundary t")
    case False
    from step_other_supply [OF False, of e rT a] Cons.prems
    have s: "supply_v (step e rT a t) = None" "lookups (step e rT a t) = lookups a"
      by simp_all
    from Cons.IH [OF s(1)] s False show ?thesis by simp
  next
    case True
    show ?thesis
    proof (cases "lookup_ok e t")
      case False
      with True Cons.prems have st: "step e rT a t = a\<lparr>lookups := lookups a @ [db_key t]\<rparr>"
        by (simp add: step_boundary_fail)
      from Cons.IH [of "step e rT a t"] st Cons.prems True False show ?thesis by simp
    next
      case ok: True
      then obtain amount where am: "findOne e (bnum t) (bhash t) = DbDoc (Some amount)"
        "amount \<noteq> 0" using lookup_ok_cases by blast
      from step_boundary_ok [OF True Cons.prems am, of rT]
      have st: "supply_v (step e rT a t) = Some (amount + rewards a)"
        "lookups (step e rT a t) = lookups a @ [db_key t]" by simp_all
      from am(2) have "amount + rewards a \<noteq> 0" by simp
      from scan_done [OF st(1) this, of e rT ts] st(2) True ok show ?thesis by simp
    qed
  qed
qed

subsection \<open>Multiples of 256 in a range of block numbers\<close>

lemma small_div256: "(r::nat) < 256 \<Longrightarrow> (r + 255) div 256 = (if r = 0 then 0 else 1)"
  by (auto intro!: div_nat_eqI)

lemma ceil_div256: "((m::nat) + 255) div 256 = m div 256 + (if m mod 256 = 0 then 0 else 1)"
proof -
  have "(m + 255) div 256 = m div 256 + 255 div 256 + (m mod 256 + 255 mod 256) div 256"
    by (rule div_add1_eq)
  also have "\<dots> = m div 256 + (m mod 256 + 255) div 256" by simp
  also have "(m mod 256 + 255) div 256 = (if m mod 256 = 0 then 0 else 1)"
    by (rule small_div256) simp
  finally show ?thesis .
qed

lemma step256: "((m::nat) + 256) div 256 = (m + 255) div 256 + (if m mod 256 = 0 then 1 else 0)"
  using div_add_self2 [of 256 m] by (simp add: ceil_div256)

lemma mono256: "((s::nat) + 255) div 256 \<le> (s + n + 255) div 256"
  by (rule div_le_mono) simp

lemma bound256: "((s::nat) + n + 255) div 256 - (s + 255) div 256 \<le> n div 256 + 1"
proof -
  have "(s + n + 255) div 256 = ((s + 255) + n) div 256" by (simp add: ac_simps)
  also have "\<dots> = (s + 255) div 256 + n div 256 + ((s + 255) mod 256 + n mod 256) div 256"
    by (rule div_add1_eq)
  finally have eq: "(s + n + 255) div 256 =
      (s + 255) div 256 + n div 256 + ((s + 255) mod 256 + n mod 256) div 256" .
  have "(s + 255) mod 256 < 256" "n mod 256 < 256" by simp_all
  then have "(s + 255) mod 256 + n mod 256 < 2 * 256" by linarith
  then have "((s + 255) mod 256 + n mod 256) div 256 < 2"
    by (rule less_mult_imp_div_less)
  with eq show ?thesis by linarith
qed

lemma multiples_upt:
  "length (filter (\<lambda>k. k mod 256 = 0) [s..<s + n]) = (s + n + 255) div 256 - (s + 255) div 256"
proof (induction n)
  case 0
  then show ?case by simp
next
  case (Suc n)
  have "(s + Suc n + 255) div 256 = (s + n + 255) div 256 + (if (s + n) mod 256 = 0 then 1 else 0)"
    using step256 [of "s + n"] by (simp add: ac_simps)
  with mono256 [of s n] Suc show ?case by simp
qed

lemma boundaries_bound:
  assumes "map bnum ts = [s..<s + length ts]"
  shows "length (filter is_boundary ts) \<le> length ts div 256 + 1"
proof -
  have "length (filter is_boundary ts) = length (filter (\<lambda>k. k mod 256 = 0) (map bnum ts))"
    by (simp add: filter_map comp_def is_boundary_def [abs_def])
  also have "\<dots> = (s + length ts + 255) div 256 - (s + 255) div 256"
    by (simp only: assms multiples_upt)
  finally show ?thesis using bound256 [of s "length ts"] by simp
qed

subsection \<open>The reply\<close>

lemma chain_of_pass:
  "ts \<noteq> [] \<Longrightarrow> fl p < 0 \<or> fl p = fl (int (bnum (last ts))) \<Longrightarrow>
   chain_of e p (Some ts) =
     (case chain_v (scan e (last ts) acc0 (rev ts)) of
        None \<Rightarrow> (NotFound404, lookups (scan e (last ts) acc0 (rev ts)))
      | Some c \<Rightarrow> (Ok200 (make_json e (last ts) (scan e (last ts) acc0 (rev ts)) c),
                   lookups (scan e (last ts) acc0 (rev ts))))"
  by (simp add: chain_of_def Let_def)

lemma chain_of_fail:
  "ts \<noteq> [] \<Longrightarrow> \<not> (fl p < 0 \<or> fl p = fl (int (bnum (last ts)))) \<Longrightarrow>
   chain_of e p (Some ts) = (NotFound404, [])"
  by (simp add: chain_of_def Let_def)

lemma check_passes:
  "p < 0 \<or> p = int (bnum (last ts)) \<Longrightarrow> fl p < 0 \<or> fl p = fl (int (bnum (last ts)))"
  by (auto simp: fl_neg_iff)

lemma chain_of_scan:
  "ts \<noteq> [] \<Longrightarrow> p < 0 \<or> p = int (bnum (last ts)) \<Longrightarrow>
   chain_of e p (Some ts) =
     (case chain_v (scan e (last ts) acc0 (rev ts)) of
        None \<Rightarrow> (NotFound404, lookups (scan e (last ts) acc0 (rev ts)))
      | Some c \<Rightarrow> (Ok200 (make_json e (last ts) (scan e (last ts) acc0 (rev ts)) c),
                   lookups (scan e (last ts) acc0 (rev ts))))"
  by (rule chain_of_pass) (simp_all add: check_passes)

lemma acc0_fields:
  "supply_v acc0 = None" "chain_v acc0 = None" "lookups acc0 = []" "rewards acc0 = 0"
  "pseudorate acc0 = 0" "nonNeogenesis acc0 = 0" "transactions acc0 = 0" "blockTimes acc0 = 0"
  "hashesTimes acc0 = 0" "hashes acc0 = NatNum 0" "difficulties acc0 = 0"
  by (simp_all add: acc0_def)

text \<open>
  Claim C3. For a window with at least one trailer in which the lookup fails at every
  trailer whose block number is a multiple of 256, the reply is the 404 reply. When the
  window passes the check against the request, the lookups made are exactly one per such
  trailer, from the newest to the oldest; for a window of consecutive block numbers they
  are at most \<open>length ts div 256 + 1\<close>; and a window without such a trailer gets the 404
  reply with no lookup at all.
\<close>

theorem all_lookups_fail:
  assumes "ts \<noteq> []"
    and "\<forall>t\<in>set ts. bnum t mod 256 = 0 \<longrightarrow> \<not> lookup_ok e t"
  shows "fst (chain_of e p (Some ts)) = NotFound404 \<and>
         (p < 0 \<or> p = int (bnum (last ts)) \<longrightarrow>
            snd (chain_of e p (Some ts)) =
              map (\<lambda>t. (bnum t, bhash t)) (filter (\<lambda>t. bnum t mod 256 = 0) (rev ts)) \<and>
            length (snd (chain_of e p (Some ts))) =
              length (filter (\<lambda>t. bnum t mod 256 = 0) ts)) \<and>
         (map bnum ts = [s..<s + length ts] \<longrightarrow>
            length (snd (chain_of e p (Some ts))) \<le> length ts div 256 + 1) \<and>
         ((\<forall>t\<in>set ts. bnum t mod 256 \<noteq> 0) \<longrightarrow> snd (chain_of e p (Some ts)) = [])"
proof (cases "fl p < 0 \<or> fl p = fl (int (bnum (last ts)))")
  case False
  with assms(1) have "chain_of e p (Some ts) = (NotFound404, [])"
    by (rule chain_of_fail)
  moreover from False have "\<not> (p < 0 \<or> p = int (bnum (last ts)))"
    using check_passes by blast
  ultimately show ?thesis by simp
next
  case True
  from assms(2) have "\<forall>t\<in>set (rev ts). is_boundary t \<longrightarrow> \<not> lookup_ok e t"
    by (simp add: is_boundary_def)
  from scan_all_fail [OF acc0_fields(1) this, of "last ts"]
  have sc: "chain_v (scan e (last ts) acc0 (rev ts)) = None"
    "lookups (scan e (last ts) acc0 (rev ts)) = map db_key (filter is_boundary (rev ts))"
    by (simp_all add: acc0_fields)
  from chain_of_pass [OF assms(1) True, of e] sc
  have r: "chain_of e p (Some ts) = (NotFound404, map db_key (filter is_boundary (rev ts)))"
    by simp
  have B: "is_boundary = (\<lambda>t. bnum t mod 256 = 0)"
    by (simp add: is_boundary_def [abs_def])
  have K: "db_key = (\<lambda>t. (bnum t, bhash t))"
    by (simp add: db_key_def [abs_def])
  from r have r': "chain_of e p (Some ts) =
      (NotFound404, map (\<lambda>t. (bnum t, bhash t)) (filter (\<lambda>t. bnum t mod 256 = 0) (rev ts)))"
    by (simp only: B K)
  have l: "length (filter (\<lambda>t. bnum t mod 256 = 0) (rev ts)) =
      length (filter (\<lambda>t. bnum t mod 256 = 0) ts)"
    by (simp add: rev_filter [symmetric])
  have bd: "map bnum ts = [s..<s + length ts] \<longrightarrow>
      length (filter (\<lambda>t. bnum t mod 256 = 0) ts) \<le> length ts div 256 + 1"
    using boundaries_bound [of ts s] by (simp only: B) simp
  have n: "(\<forall>t\<in>set ts. bnum t mod 256 \<noteq> 0) \<longrightarrow> filter (\<lambda>t. bnum t mod 256 = 0) (rev ts) = []"
    by (simp add: filter_empty_conv)
  show ?thesis
    by (simp only: r' fst_conv snd_conv length_map l) (use bd n in simp)
qed

theorem all_lookups_fail_witness:
  "[sample_trailer 511 3, sample_trailer 512 0, sample_trailer 513 4] \<noteq> [] \<and>
   bnum (sample_trailer 511 3) mod 256 \<noteq> 0 \<and> bnum (sample_trailer 513 4) mod 256 \<noteq> 0 \<and>
   \<not> lookup_ok sample_env (sample_trailer 512 0) \<and>
   map bnum [sample_trailer 511 3, sample_trailer 512 0, sample_trailer 513 4] = [511..<511 + 3] \<and>
   chain_of sample_env 513 (Some [sample_trailer 511 3, sample_trailer 512 0, sample_trailer 513 4])
     = (NotFound404, [(512, ''h'')]) \<and>
   bnum (sample_trailer 257 3) mod 256 \<noteq> 0 \<and> bnum (sample_trailer 258 0) mod 256 \<noteq> 0 \<and>
   chain_of sample_env (- 2) (Some [sample_trailer 257 3, sample_trailer 258 0])
     = (NotFound404, [])"
proof -
  have h1: "\<forall>t\<in>set [sample_trailer 511 3, sample_trailer 512 0, sample_trailer 513 4].
      bnum t mod 256 = 0 \<longrightarrow> \<not> lookup_ok sample_env t"
    by (simp add: sample_trailer_def sample_env_def lookup_ok_def)
  have h2: "\<forall>t\<in>set [sample_trailer 257 3, sample_trailer 258 0].
      bnum t mod 256 = 0 \<longrightarrow> \<not> lookup_ok sample_env t"
    by (simp add: sample_trailer_def)
  have h3: "map bnum [sample_trailer 511 3, sample_trailer 512 0, sample_trailer 513 4] = [511..<511 + 3]"
    by (simp add: sample_trailer_def upt_rec)
  have h4: "\<forall>t\<in>set [sample_trailer 257 3, sample_trailer 258 0]. bnum t mod 256 \<noteq> 0"
    by (simp add: sample_trailer_def)
  have h5: "\<not> lookup_ok sample_env (sample_trailer 512 0)"
    by (simp add: sample_trailer_def sample_env_def lookup_ok_def)
  from all_lookups_fail [OF _ h1, of 513 511] all_lookups_fail [OF _ h2, of "- 2" 0] h3 h4 h5
  show ?thesis
    by (simp add: prod_eq_iff sample_trailer_def)
qed

text \<open>
  Claim C4, as stated: an absolute request other than the block number of the last trailer
  gets the 404 reply with no lookup. For the request \<open>2 ^ 53\<close> and a tfile whose last
  trailer has the block number \<open>2 ^ 53 + 1\<close>, whose Number is \<open>2 ^ 53\<close>, the loop runs:
  there is a lookup at the trailer \<open>2 ^ 53\<close> and the reply has a supply.
\<close>

theorem mismatch_unavailable_counterexample:
  "(0::int) \<le> 2 ^ 53 \<and>
   int (bnum (last [sample_trailer (2 ^ 53) 0, sample_trailer (2 ^ 53 + 1) 4])) \<noteq> 2 ^ 53 \<and>
   snd (chain_of sample_env_big (2 ^ 53) (Some [sample_trailer (2 ^ 53) 0, sample_trailer (2 ^ 53 + 1) 4])) = [(2 ^ 53, ''h'')] \<and>
   supply_of (fst (chain_of sample_env_big (2 ^ 53) (Some [sample_trailer (2 ^ 53) 0, sample_trailer (2 ^ 53 + 1) 4]))) = Some 1013 \<and>
   chain_of sample_env_big (2 ^ 53) (Some [sample_trailer (2 ^ 53) 0, sample_trailer (2 ^ 53 + 1) 4]) \<noteq> (NotFound404, [])"
  by (simp add: chain_of_def acc0_def step_def nonNeo_iff not_supply_def neogenesis_def
      sample_trailer_def sample_env_big_def sample_env_def supply_of_def make_json_def Let_def
      fl_def fl_nat_def bit_length.simps add_num_def pow2_def num_of_nat_def)

text \<open>
  Claim C4, amended. For an absolute request \<open>p\<close> (\<open>0 \<le> p\<close>) and a tfile whose last
  trailer has a block number whose Number (the nearest double) is other than the Number of
  \<open>p\<close>, the reply is the 404 reply and no lookup is made: the loop is not entered. Up to
  \<open>2 ^ 53\<close> the Numbers are the request and the block number themselves. A relative
  (negative) request is not checked against the last trailer: it is answered as the
  absolute request for the block number of the last trailer is.
\<close>

theorem mismatch_unavailable:
  "ts \<noteq> [] \<Longrightarrow>
     (0 \<le> p \<and> fl (int (bnum (last ts))) \<noteq> fl p \<longrightarrow>
        chain_of e p (Some ts) = (NotFound404, [])) \<and>
     (0 \<le> p \<and> p \<le> 2 ^ 53 \<and> bnum (last ts) \<le> 2 ^ 53 \<and> int (bnum (last ts)) \<noteq> p \<longrightarrow>
        chain_of e p (Some ts) = (NotFound404, [])) \<and>
     (p < 0 \<longrightarrow> chain_of e p (Some ts) = chain_of e (int (bnum (last ts))) (Some ts))"
proof -
  assume ne: "ts \<noteq> []"
  have a: "chain_of e p (Some ts) = (NotFound404, [])"
    if "0 \<le> p" "fl (int (bnum (last ts))) \<noteq> fl p"
  proof -
    from that have "\<not> (fl p < 0 \<or> fl p = fl (int (bnum (last ts))))"
      by (auto simp: fl_neg_iff)
    with ne show ?thesis by (rule chain_of_fail)
  qed
  have b: "chain_of e p (Some ts) = (NotFound404, [])"
    if "0 \<le> p" "p \<le> 2 ^ 53" "bnum (last ts) \<le> 2 ^ 53" "int (bnum (last ts)) \<noteq> p"
  proof -
    from that have "fl p = p" "fl (int (bnum (last ts))) = int (bnum (last ts))"
      by (simp_all add: fl_small)
    with that a show ?thesis by simp
  qed
  have c: "chain_of e p (Some ts) = chain_of e (int (bnum (last ts))) (Some ts)" if "p < 0"
  proof -
    from that have "fl p < 0 \<or> fl p = fl (int (bnum (last ts)))" by (simp add: fl_neg_iff)
    from chain_of_pass [OF ne this, of e] chain_of_pass [OF ne, of "int (bnum (last ts))" e]
    show ?thesis by simp
  qed
  from a b c show ?thesis by blast
qed

theorem mismatch_unavailable_witness:
  "[sample_trailer 255 3, sample_trailer 256 0, sample_trailer 257 4] \<noteq> [] \<and>
   (0::int) \<le> 300 \<and> (300::int) \<le> 2 ^ 53 \<and> bnum (last [sample_trailer 255 3, sample_trailer 256 0, sample_trailer 257 4]) \<le> 2 ^ 53 \<and>
   int (bnum (last [sample_trailer 255 3, sample_trailer 256 0, sample_trailer 257 4])) \<noteq> 300 \<and>
   chain_of sample_env 300 (Some [sample_trailer 255 3, sample_trailer 256 0, sample_trailer 257 4]) = (NotFound404, []) \<and>
   (- 2 :: int) < 0 \<and>
   chain_of sample_env (- 2) (Some [sample_trailer 255 3, sample_trailer 256 0, sample_trailer 257 4]) = chain_of sample_env 257 (Some [sample_trailer 255 3, sample_trailer 256 0, sample_trailer 257 4])"
  using mismatch_unavailable [of "[sample_trailer 255 3, sample_trailer 256 0, sample_trailer 257 4]" 300 sample_env]
    mismatch_unavailable [of "[sample_trailer 255 3, sample_trailer 256 0, sample_trailer 257 4]" "- 2" sample_env]
  by (simp add: sample_trailer_def)

text \<open>
  Claim C9. At a trailer whose block number is a multiple of 256, with \<open>supply\<close> still
  undefined, a lookup that throws, finds nothing, finds a document without \<open>amount\<close> or one
  with the amount 0 changes nothing but the record of lookups: \<open>supply\<close> stays undefined and
  the loop goes on with the older trailers. A window in which every such lookup has one of
  these results gets no reply with a supply; in particular a stored amount of 0 never gives
  one.
\<close>

theorem failed_lookup_continues:
  assumes "bnum t mod 256 = 0"
    and "supply_v a = None"
    and "findOne e (bnum t) (bhash t) \<in> {DbThrows, DbNull, DbDoc None, DbDoc (Some 0)}"
  shows "step e rT a t = a\<lparr>lookups := lookups a @ [(bnum t, bhash t)]\<rparr> \<and>
         supply_v (step e rT a t) = None \<and>
         scan e rT a (t # ts) = scan e rT (a\<lparr>lookups := lookups a @ [(bnum t, bhash t)]\<rparr>) ts \<and>
         ((\<forall>u\<in>set ws. bnum u mod 256 = 0 \<longrightarrow>
              findOne e (bnum u) (bhash u) \<in> {DbThrows, DbNull, DbDoc None, DbDoc (Some 0)}) \<longrightarrow>
            supply_of (fst (chain_of e p (Some ws))) = None)"
proof -
  have fail: "\<not> lookup_ok e u"
    if "findOne e (bnum u) (bhash u) \<in> {DbThrows, DbNull, DbDoc None, DbDoc (Some 0)}" for u
    using that by (auto simp: lookup_ok_def)
  from assms have st: "step e rT a t = a\<lparr>lookups := lookups a @ [(bnum t, bhash t)]\<rparr>"
    using step_boundary_fail [of t a e rT] fail [of t]
    by (simp add: is_boundary_def db_key_def)
  have win: "supply_of (fst (chain_of e p (Some ws))) = None"
    if h: "\<forall>u\<in>set ws. bnum u mod 256 = 0 \<longrightarrow>
              findOne e (bnum u) (bhash u) \<in> {DbThrows, DbNull, DbDoc None, DbDoc (Some 0)}"
  proof (cases "ws = []")
    case True
    then show ?thesis by (simp add: chain_of_def supply_of_def)
  next
    case False
    show ?thesis
    proof (cases "fl p < 0 \<or> fl p = fl (int (bnum (last ws)))")
      case m: False
      from chain_of_fail [OF False m] show ?thesis by (simp add: supply_of_def)
    next
      case m: True
      from h fail have "\<forall>u\<in>set (rev ws). is_boundary u \<longrightarrow> \<not> lookup_ok e u"
        by (simp add: is_boundary_def)
      from scan_all_fail [OF acc0_fields(1) this, of "last ws"]
      have "chain_v (scan e (last ws) acc0 (rev ws)) = None" by (simp add: acc0_fields)
      with chain_of_pass [OF False m, of e] show ?thesis by (simp add: supply_of_def)
    qed
  qed
  from st assms(2) win show ?thesis by simp
qed

theorem failed_lookup_continues_witness:
  "bnum (sample_trailer 512 0) mod 256 = 0 \<and> supply_v acc0 = None \<and>
   findOne sample_env (bnum (sample_trailer 512 0)) (bhash (sample_trailer 512 0)) = DbDoc (Some 0) \<and>
   step sample_env (sample_trailer 513 4) acc0 (sample_trailer 512 0) = acc0\<lparr>lookups := [(512, ''h'')]\<rparr> \<and>
   supply_of (fst (chain_of sample_env 513
      (Some [sample_trailer 511 3, sample_trailer 512 0, sample_trailer 513 4]))) = None"
proof -
  have h1: "bnum (sample_trailer 512 0) mod 256 = 0" by (simp add: sample_trailer_def)
  have h2: "findOne sample_env (bnum (sample_trailer 512 0)) (bhash (sample_trailer 512 0))
      \<in> {DbThrows, DbNull, DbDoc None, DbDoc (Some 0)}"
    by (simp add: sample_trailer_def sample_env_def)
  have h3: "\<forall>u\<in>set [sample_trailer 511 3, sample_trailer 512 0, sample_trailer 513 4].
      bnum u mod 256 = 0 \<longrightarrow>
      findOne sample_env (bnum u) (bhash u) \<in> {DbThrows, DbNull, DbDoc None, DbDoc (Some 0)}"
    by (simp add: sample_trailer_def sample_env_def)
  have h4: "findOne sample_env (bnum (sample_trailer 512 0)) (bhash (sample_trailer 512 0)) = DbDoc (Some 0)"
    by (simp add: sample_trailer_def sample_env_def)
  from failed_lookup_continues [OF h1 acc0_fields(1) h2, of "sample_trailer 513 4" "[]"
      "[sample_trailer 511 3, sample_trailer 512 0, sample_trailer 513 4]" 513] h1 h3 h4
  show ?thesis by (simp add: acc0_fields sample_trailer_def)
qed

lemma make_json_supply:
  "j_supply (make_json e rT a c) = snd c" "j_maxsupply (make_json e rT a c) = fst c"
  by (simp_all add: make_json_def Let_def)

lemma make_json_avgs:
  "j_blocktime_avg (make_json e rT a c) = round_js e (js_div (blockTimes a) (int (nonNeogenesis a)))"
  "j_tcount_avg (make_json e rT a c) = round_js e (js_div (int (transactions a)) (int (nonNeogenesis a)))"
  "j_tcountpsec_avg (make_json e rT a c) = round_js e (js_div (int (transactions a)) (blockTimes a))"
  "j_difficulty_avg (make_json e rT a c) = round_js e (js_div (int (difficulties a)) (int (nonNeogenesis a)))"
  "j_hashrate_avg (make_json e rT a c) = round_js e (num_div (hashes a) (hashesTimes a))"
  "j_pseudorate_avg (make_json e rT a c) = round_js e (js_div (int (pseudorate a)) (int (nonNeogenesis a)))"
  by (simp_all add: make_json_def Let_def)

lemma make_json_target:
  "j_blocktime (make_json e rT a c) = (if nonNeo rT then int (stime rT) - int (time0 rT) else 0)"
  "j_tcountpsec (make_json e rT a c) =
     round_js e (js_div (int (tcount rT)) (if nonNeo rT then int (stime rT) - int (time0 rT) else 0))"
  by (simp_all add: make_json_def Let_def)

lemma chain_of_Ok:
  "fst (chain_of e p (Some ts)) = Ok200 j \<Longrightarrow>
   ts \<noteq> [] \<and> (fl p < 0 \<or> fl p = fl (int (bnum (last ts)))) \<and>
   (\<exists>c. chain_v (scan e (last ts) acc0 (rev ts)) = Some c \<and>
        j = make_json e (last ts) (scan e (last ts) acc0 (rev ts)) c)"
  by (auto simp: chain_of_def Let_def split: if_splits option.splits)

lemma sum_filter_rev:
  fixes f :: "'a \<Rightarrow> 'b::comm_monoid_add"
  shows "sum_list (map f (filter P (rev xs))) = sum_list (map f (filter P xs))"
  by (simp add: rev_filter [symmetric] rev_map [symmetric])

lemma length_filter_rev: "length (filter P (rev xs)) = length (filter P xs)"
  by (simp add: rev_filter [symmetric])

text \<open>
  Claim C1. Let the window be \<open>older @ b # newer\<close> (oldest first), where \<open>b\<close> has a block
  number that is a multiple of 256 and its lookup gives a nonzero amount, and no lookup
  succeeds at a trailer of \<open>newer\<close> (so the lookup at \<open>b\<close> is the first to succeed, from
  the newest trailer on). For a window that passes the check against the request, the supply
  of the reply is that amount plus the sum of \<open>blockReward bnum + mfee * tcount\<close> over the
  normal trailers of \<open>newer\<close>; pseudo and boundary trailers of \<open>newer\<close> add nothing.
\<close>

theorem supply_from_first_baseline:
  assumes "ts = older @ b # newer"
    and "bnum b mod 256 = 0"
    and "findOne e (bnum b) (bhash b) = DbDoc (Some amount)"
    and "amount \<noteq> 0"
    and "\<forall>t\<in>set newer. bnum t mod 256 = 0 \<longrightarrow> \<not> lookup_ok e t"
    and "p < 0 \<or> p = int (bnum (last ts))"
  shows "supply_of (fst (chain_of e p (Some ts))) =
           Some (amount +
             sum_list (map (\<lambda>t. blockReward e (bnum t) + mfee t * tcount t)
               (filter (\<lambda>t. bnum t mod 256 \<noteq> 0 \<and> 0 < tcount t) newer)))"
proof -
  let ?rT = "last ts"
  let ?a1 = "scan e ?rT acc0 (rev newer)"
  let ?R = "sum_list (map (reward_of e) (filter is_normal newer))"
  have ne: "ts \<noteq> []" using assms(1) by simp
  have b: "is_boundary b" using assms(2) by (simp add: is_boundary_def)
  from assms(5) have "\<forall>t\<in>set (rev newer). is_boundary t \<longrightarrow> \<not> lookup_ok e t"
    by (simp add: is_boundary_def)
  from scan_all_fail [OF acc0_fields(1) this, of ?rT]
  have a1: "supply_v ?a1 = None" by simp
  have r1: "rewards ?a1 = ?R"
    by (simp add: scan_rewards acc0_fields sum_filter_rev)
  from step_boundary_ok [OF b a1 assms(3,4), of ?rT] r1
  have s2: "supply_v (step e ?rT ?a1 b) = Some (amount + ?R)"
    and "\<exists>m. chain_v (step e ?rT ?a1 b) = Some (m, amount + ?R)"
    by simp_all
  then obtain m where c2: "chain_v (step e ?rT ?a1 b) = Some (m, amount + ?R)" by blast
  from assms(4) have nz: "amount + ?R \<noteq> 0" by simp
  have "scan e ?rT acc0 (rev ts) = scan e ?rT (step e ?rT ?a1 b) (rev older)"
    by (simp add: assms(1) scan_append)
  with scan_done [OF s2 nz, of e ?rT "rev older"] c2
  have "chain_v (scan e ?rT acc0 (rev ts)) = Some (m, amount + ?R)" by simp
  with chain_of_scan [OF ne assms(6), of e]
  have "supply_of (fst (chain_of e p (Some ts))) = Some (amount + ?R)"
    by (simp add: supply_of_def make_json_supply)
  then show ?thesis
    by (simp add: reward_of_def [abs_def] is_normal_def [abs_def])
qed

theorem supply_from_first_baseline_witness:
  "[sample_trailer 255 3, sample_trailer 256 0, sample_trailer 257 4, sample_trailer 258 0]
     = [sample_trailer 255 3] @ sample_trailer 256 0 # [sample_trailer 257 4, sample_trailer 258 0] \<and>
   bnum (sample_trailer 256 0) mod 256 = 0 \<and>
   findOne sample_env (bnum (sample_trailer 256 0)) (bhash (sample_trailer 256 0)) = DbDoc (Some 1000) \<and>
   (1000::nat) \<noteq> 0 \<and>
   bnum (sample_trailer 257 4) mod 256 \<noteq> 0 \<and> bnum (sample_trailer 258 0) mod 256 \<noteq> 0 \<and>
   supply_of (fst (chain_of sample_env 258
     (Some [sample_trailer 255 3, sample_trailer 256 0, sample_trailer 257 4, sample_trailer 258 0])))
     = Some 1013"
proof -
  have h1: "[sample_trailer 255 3, sample_trailer 256 0, sample_trailer 257 4, sample_trailer 258 0]
     = [sample_trailer 255 3] @ sample_trailer 256 0 # [sample_trailer 257 4, sample_trailer 258 0]"
    by simp
  have h2: "bnum (sample_trailer 256 0) mod 256 = 0" by (simp add: sample_trailer_def)
  have h3: "findOne sample_env (bnum (sample_trailer 256 0)) (bhash (sample_trailer 256 0))
      = DbDoc (Some 1000)"
    by (simp add: sample_trailer_def sample_env_def)
  have h4: "(1000::nat) \<noteq> 0" by simp
  have h5: "\<forall>t\<in>set [sample_trailer 257 4, sample_trailer 258 0].
      bnum t mod 256 = 0 \<longrightarrow> \<not> lookup_ok sample_env t"
    by (simp add: sample_trailer_def)
  have h6: "(258::int) < 0 \<or> 258 = int (bnum (last
      [sample_trailer 255 3, sample_trailer 256 0, sample_trailer 257 4, sample_trailer 258 0]))"
    by (simp add: sample_trailer_def)
  from supply_from_first_baseline [OF h1 h2 h3 h4 h5 h6] h2 h3
  show ?thesis by (simp add: sample_trailer_def sample_env_def)
qed

text \<open>
  Claim C2, as stated: \<open>maxsupply = projectedSupply(latest) - (projectedSupply() - supply)\<close>.
  For the window of the single trailer 256, with the amount 1000 stored for it,
  \<open>projectedSupply() = 5000\<close> and \<open>projectedSupply(256) = 256\<close>, the reply has the supply 1000
  and the maximum supply 5744, and the stated formula gives \<open>- 3744\<close>.
\<close>

theorem maxsupply_counterexample:
  "supply_of (fst (chain_of sample_env 256 (Some [sample_trailer 256 0]))) = Some 1000 \<and>
   maxsupply_of (fst (chain_of sample_env 256 (Some [sample_trailer 256 0]))) = Some 5744 \<and>
   projectedSupply sample_env (Some 256) - (projectedSupply sample_env None - int 1000) = - 3744 \<and>
   maxsupply_of (fst (chain_of sample_env 256 (Some [sample_trailer 256 0]))) \<noteq>
     Some (projectedSupply sample_env (Some (bnum (last [sample_trailer 256 0])))
           - (projectedSupply sample_env None - int 1000))"
  by (simp add: chain_of_def acc0_def step_def nonNeo_iff not_supply_def neogenesis_def
      sample_trailer_def sample_env_def supply_of_def maxsupply_of_def make_json_supply Let_def)

lemma step_chain_formula:
  assumes "\<forall>m s. chain_v a = Some (m, s) \<longrightarrow>
             m = projectedSupply e None - (projectedSupply e (Some (bnum rT)) - int s)"
  shows "\<forall>m s. chain_v (step e rT a t) = Some (m, s) \<longrightarrow>
             m = projectedSupply e None - (projectedSupply e (Some (bnum rT)) - int s)"
proof (cases "is_boundary t")
  case False
  with assms show ?thesis by (simp add: step_other_supply)
next
  case True
  show ?thesis
  proof (cases "not_supply (supply_v a) \<and> lookup_ok e t")
    case False
    with True have "chain_v (step e rT a t) = chain_v a"
      by (auto simp: step_boundary neogenesis_fail)
    with assms show ?thesis by simp
  next
    case ok: True
    then obtain amount where am: "findOne e (bnum t) (bhash t) = DbDoc (Some amount)"
      "amount \<noteq> 0" using lookup_ok_cases by blast
    with True ok show ?thesis by (simp add: step_boundary neogenesis_ok)
  qed
qed

lemma scan_chain_formula:
  "\<forall>m s. chain_v a = Some (m, s) \<longrightarrow>
      m = projectedSupply e None - (projectedSupply e (Some (bnum rT)) - int s) \<Longrightarrow>
   \<forall>m s. chain_v (scan e rT a xs) = Some (m, s) \<longrightarrow>
      m = projectedSupply e None - (projectedSupply e (Some (bnum rT)) - int s)"
proof (induction xs arbitrary: a)
  case Nil
  then show ?case by simp
next
  case (Cons t ts)
  from Cons.IH [OF step_chain_formula [OF Cons.prems]] show ?case by simp
qed

text \<open>
  Claim C2, amended. In every reply with status 200 (that is, whenever a lookup has
  succeeded) \<open>maxsupply = projectedSupply() - (projectedSupply(latest) - supply)\<close>, where
  \<open>latest\<close> is the block number of the newest trailer of the window: the lost supply
  \<open>projectedSupply(latest) - supply\<close> is taken off the final supply \<open>projectedSupply()\<close>.
\<close>

theorem maxsupply_formula:
  assumes "fst (chain_of e p (Some ts)) = Ok200 j"
  shows "j_maxsupply j =
           projectedSupply e None - (projectedSupply e (Some (bnum (last ts))) - int (j_supply j))"
proof -
  from chain_of_Ok [OF assms] obtain c where
    c: "chain_v (scan e (last ts) acc0 (rev ts)) = Some c"
    and j: "j = make_json e (last ts) (scan e (last ts) acc0 (rev ts)) c"
    by blast
  have "\<forall>m s. chain_v acc0 = Some (m, s) \<longrightarrow>
      m = projectedSupply e None - (projectedSupply e (Some (bnum (last ts))) - int s)"
    by (simp add: acc0_fields)
  from scan_chain_formula [OF this, of "rev ts"] c
  have "fst c = projectedSupply e None - (projectedSupply e (Some (bnum (last ts))) - int (snd c))"
    by (cases c) simp
  with j show ?thesis by (simp add: make_json_supply)
qed

theorem maxsupply_formula_witness:
  "fst (chain_of sample_env 257
      (Some [sample_trailer 255 3, sample_trailer 256 0, sample_trailer 257 4]))
     = Ok200 (make_json sample_env (sample_trailer 257 4)
         (scan sample_env (sample_trailer 257 4) acc0
            [sample_trailer 257 4, sample_trailer 256 0, sample_trailer 255 3]) (5756, 1013)) \<and>
   (5756 :: int) = projectedSupply sample_env None
       - (projectedSupply sample_env (Some 257) - int 1013)"
proof -
  have h: "fst (chain_of sample_env 257
      (Some [sample_trailer 255 3, sample_trailer 256 0, sample_trailer 257 4]))
     = Ok200 (make_json sample_env (sample_trailer 257 4)
         (scan sample_env (sample_trailer 257 4) acc0
            [sample_trailer 257 4, sample_trailer 256 0, sample_trailer 255 3]) (5756, 1013))"
    by (simp add: chain_of_def acc0_def step_def nonNeo_iff not_supply_def neogenesis_def
      sample_trailer_def sample_env_def Let_def)
  from maxsupply_formula [OF h] h show ?thesis
    by (simp add: make_json_supply sample_trailer_def)
qed

text \<open>
  Claim C10. The loop visits every trailer of the window. Lookups are made at the boundary
  trailers from the newest on, up to and including the first that succeeds, and at none
  after it (\<open>lookups_until\<close>); the eight sums run over the whole window, also over the
  trailers older than the boundary at which the supply was found (\<open>hashes\<close> is the sum of
  the doubles \<open>Math.pow(2, difficulty)\<close> of all normal trailers, added from the newest to the
  oldest). So each average of the reply is taken over all trailers of the window that are no
  boundary trailers (over all normal ones for the hash rate).
\<close>

theorem sums_over_whole_window:
  "nonNeogenesis (scan e rT acc0 (rev ts)) = length (filter (\<lambda>t. \<not> is_boundary t) ts) \<and>
   blockTimes (scan e rT acc0 (rev ts)) = sum_list (map solve_time (filter (\<lambda>t. \<not> is_boundary t) ts)) \<and>
   difficulties (scan e rT acc0 (rev ts)) = sum_list (map difficulty (filter (\<lambda>t. \<not> is_boundary t) ts)) \<and>
   pseudorate (scan e rT acc0 (rev ts)) = length (filter is_pseudo ts) \<and>
   transactions (scan e rT acc0 (rev ts)) = sum_list (map tcount (filter is_normal ts)) \<and>
   hashesTimes (scan e rT acc0 (rev ts)) = sum_list (map solve_time (filter is_normal ts)) \<and>
   hashes (scan e rT acc0 (rev ts)) =
     foldl add_num (NatNum 0) (map (\<lambda>t. pow2 (difficulty t)) (filter is_normal (rev ts))) \<and>
   rewards (scan e rT acc0 (rev ts)) = sum_list (map (reward_of e) (filter is_normal ts)) \<and>
   lookups (scan e rT acc0 (rev ts)) = lookups_until e (rev ts) \<and>
   (fst (chain_of e p (Some ts)) = Ok200 j \<longrightarrow>
      snd (chain_of e p (Some ts)) = lookups_until e (rev ts) \<and>
      j_blocktime_avg j =
        round_js e (js_div (sum_list (map solve_time (filter (\<lambda>t. \<not> is_boundary t) ts)))
                           (int (length (filter (\<lambda>t. \<not> is_boundary t) ts)))) \<and>
      j_tcount_avg j =
        round_js e (js_div (int (sum_list (map tcount (filter is_normal ts))))
                           (int (length (filter (\<lambda>t. \<not> is_boundary t) ts)))) \<and>
      j_tcountpsec_avg j =
        round_js e (js_div (int (sum_list (map tcount (filter is_normal ts))))
                           (sum_list (map solve_time (filter (\<lambda>t. \<not> is_boundary t) ts)))) \<and>
      j_difficulty_avg j =
        round_js e (js_div (int (sum_list (map difficulty (filter (\<lambda>t. \<not> is_boundary t) ts))))
                           (int (length (filter (\<lambda>t. \<not> is_boundary t) ts)))) \<and>
      j_hashrate_avg j =
        round_js e (num_div (foldl add_num (NatNum 0)
                                (map (\<lambda>t. pow2 (difficulty t)) (filter is_normal (rev ts))))
                            (sum_list (map solve_time (filter is_normal ts)))) \<and>
      j_pseudorate_avg j =
        round_js e (js_div (int (length (filter is_pseudo ts)))
                           (int (length (filter (\<lambda>t. \<not> is_boundary t) ts)))))"
proof -
  let ?a = "scan e rT acc0 (rev ts)"
  have s: "nonNeogenesis (scan e r acc0 (rev ts)) = length (filter (\<lambda>t. \<not> is_boundary t) ts)"
    "blockTimes (scan e r acc0 (rev ts)) = sum_list (map solve_time (filter (\<lambda>t. \<not> is_boundary t) ts))"
    "difficulties (scan e r acc0 (rev ts)) = sum_list (map difficulty (filter (\<lambda>t. \<not> is_boundary t) ts))"
    "pseudorate (scan e r acc0 (rev ts)) = length (filter is_pseudo ts)"
    "transactions (scan e r acc0 (rev ts)) = sum_list (map tcount (filter is_normal ts))"
    "hashesTimes (scan e r acc0 (rev ts)) = sum_list (map solve_time (filter is_normal ts))"
    "hashes (scan e r acc0 (rev ts)) =
       foldl add_num (NatNum 0) (map (\<lambda>t. pow2 (difficulty t)) (filter is_normal (rev ts)))"
    "rewards (scan e r acc0 (rev ts)) = sum_list (map (reward_of e) (filter is_normal ts))"
    "lookups (scan e r acc0 (rev ts)) = lookups_until e (rev ts)" for r
    by (simp_all add: scan_nonNeogenesis scan_blockTimes scan_difficulties scan_pseudorate
        scan_transactions scan_hashesTimes scan_hashes scan_rewards scan_lookups acc0_fields
        sum_filter_rev length_filter_rev)
  have j: "snd (chain_of e p (Some ts)) = lookups_until e (rev ts) \<and>
      j_blocktime_avg j =
        round_js e (js_div (sum_list (map solve_time (filter (\<lambda>t. \<not> is_boundary t) ts)))
                           (int (length (filter (\<lambda>t. \<not> is_boundary t) ts)))) \<and>
      j_tcount_avg j =
        round_js e (js_div (int (sum_list (map tcount (filter is_normal ts))))
                           (int (length (filter (\<lambda>t. \<not> is_boundary t) ts)))) \<and>
      j_tcountpsec_avg j =
        round_js e (js_div (int (sum_list (map tcount (filter is_normal ts))))
                           (sum_list (map solve_time (filter (\<lambda>t. \<not> is_boundary t) ts)))) \<and>
      j_difficulty_avg j =
        round_js e (js_div (int (sum_list (map difficulty (filter (\<lambda>t. \<not> is_boundary t) ts))))
                           (int (length (filter (\<lambda>t. \<not> is_boundary t) ts)))) \<and>
      j_hashrate_avg j =
        round_js e (num_div (foldl add_num (NatNum 0)
                                (map (\<lambda>t. pow2 (difficulty t)) (filter is_normal (rev ts))))
                            (sum_list (map solve_time (filter is_normal ts)))) \<and>
      j_pseudorate_avg j =
        round_js e (js_div (int (length (filter is_pseudo ts)))
                           (int (length (filter (\<lambda>t. \<not> is_boundary t) ts))))"
    if ok: "fst (chain_of e p (Some ts)) = Ok200 j"
  proof -
    from chain_of_Ok [OF ok] obtain c where
      ne: "ts \<noteq> []" and m: "fl p < 0 \<or> fl p = fl (int (bnum (last ts)))"
      and c: "chain_v (scan e (last ts) acc0 (rev ts)) = Some c"
      and jj: "j = make_json e (last ts) (scan e (last ts) acc0 (rev ts)) c"
      by blast
    from chain_of_pass [OF ne m, of e] c
    have "snd (chain_of e p (Some ts)) = lookups (scan e (last ts) acc0 (rev ts))" by simp
    then show ?thesis
      by (simp only: jj make_json_avgs s)
  qed
  from s [of rT] j show ?thesis by blast
qed

theorem sums_over_whole_window_witness:
  "fst (chain_of sample_env 257
      (Some [sample_trailer 0 0, sample_trailer 255 3, sample_trailer 256 0, sample_trailer 257 4]))
     = Ok200 (make_json sample_env (sample_trailer 257 4)
         (scan sample_env (sample_trailer 257 4) acc0
            [sample_trailer 257 4, sample_trailer 256 0, sample_trailer 255 3, sample_trailer 0 0])
         (5756, 1013)) \<and>
   snd (chain_of sample_env 257
      (Some [sample_trailer 0 0, sample_trailer 255 3, sample_trailer 256 0, sample_trailer 257 4]))
     = [(256, ''h'')] \<and>
   j_tcount_avg (make_json sample_env (sample_trailer 257 4)
         (scan sample_env (sample_trailer 257 4) acc0
            [sample_trailer 257 4, sample_trailer 256 0, sample_trailer 255 3, sample_trailer 0 0])
         (5756, 1013)) = Fin (7 / 2) \<and>
   j_blocktime_avg (make_json sample_env (sample_trailer 257 4)
         (scan sample_env (sample_trailer 257 4) acc0
            [sample_trailer 257 4, sample_trailer 256 0, sample_trailer 255 3, sample_trailer 0 0])
         (5756, 1013)) = Fin 10"
proof -
  have h: "fst (chain_of sample_env 257
      (Some [sample_trailer 0 0, sample_trailer 255 3, sample_trailer 256 0, sample_trailer 257 4]))
     = Ok200 (make_json sample_env (sample_trailer 257 4)
         (scan sample_env (sample_trailer 257 4) acc0
            [sample_trailer 257 4, sample_trailer 256 0, sample_trailer 255 3, sample_trailer 0 0])
         (5756, 1013))"
    by (simp add: chain_of_def acc0_def step_def nonNeo_iff not_supply_def neogenesis_def
      sample_trailer_def sample_env_def Let_def)
  have b: "\<not> is_boundary (sample_trailer 257 4)" "is_boundary (sample_trailer 256 0)"
    "\<not> is_boundary (sample_trailer 255 3)" "is_boundary (sample_trailer 0 0)"
    "is_normal (sample_trailer 257 4)" "\<not> is_normal (sample_trailer 256 0)"
    "is_normal (sample_trailer 255 3)" "\<not> is_normal (sample_trailer 0 0)"
    "lookup_ok sample_env (sample_trailer 256 0)"
    "db_key (sample_trailer 256 0) = (256, ''h'')"
    "solve_time (sample_trailer 257 4) = 10" "solve_time (sample_trailer 255 3) = 10"
    "tcount (sample_trailer 257 4) = 4" "tcount (sample_trailer 255 3) = 3"
    "\<And>x. round_js sample_env x = x"
    by (simp_all add: is_boundary_def is_normal_def lookup_ok_def db_key_def solve_time_def
        sample_trailer_def sample_env_def)
  from sums_over_whole_window [of sample_env "sample_trailer 257 4"
      "[sample_trailer 0 0, sample_trailer 255 3, sample_trailer 256 0, sample_trailer 257 4]" 257
      "make_json sample_env (sample_trailer 257 4)
         (scan sample_env (sample_trailer 257 4) acc0
            [sample_trailer 257 4, sample_trailer 256 0, sample_trailer 255 3, sample_trailer 0 0])
         (5756, 1013)"] h
  show ?thesis
    by (simp add: b js_div_def)
qed

lemma js_div_zero: "js_div x 0 = (if x = 0 then NaN else if 0 < x then PosInfinity else NegInfinity)"
  by (simp add: js_div_def)

text \<open>
  Claim C8. When the loop has found a supply, the reply has status 200 whatever the
  divisors are. A target whose block number is a multiple of 256 has the block time 0; with
  the block time 0 the quotient \<open>tcount / blocktime\<close> is handed to \<open>round\<close> as it is,
  not-a-number for no transactions and infinity otherwise; and in a window of boundary
  trailers only, where \<open>nonNeogenesis\<close> and the other divisors are 0, the averages are
  \<open>round\<close> of not-a-number.
\<close>

theorem zero_divisor_passes_through:
  assumes "ts \<noteq> []"
    and "p < 0 \<or> p = int (bnum (last ts))"
    and "chain_v (scan e (last ts) acc0 (rev ts)) = Some c"
    and "j = make_json e (last ts) (scan e (last ts) acc0 (rev ts)) c"
  shows "fst (chain_of e p (Some ts)) = Ok200 j \<and>
         (bnum (last ts) mod 256 = 0 \<longrightarrow> j_blocktime j = 0) \<and>
         (j_blocktime j = 0 \<longrightarrow>
            j_tcountpsec j = round_js e (if tcount (last ts) = 0 then NaN else PosInfinity)) \<and>
         ((\<forall>t\<in>set ts. bnum t mod 256 = 0) \<longrightarrow>
            j_blocktime_avg j = round_js e NaN \<and> j_tcount_avg j = round_js e NaN \<and>
            j_tcountpsec_avg j = round_js e NaN \<and> j_difficulty_avg j = round_js e NaN \<and>
            j_hashrate_avg j = round_js e NaN \<and> j_pseudorate_avg j = round_js e NaN)"
proof -
  let ?a = "scan e (last ts) acc0 (rev ts)"
  from chain_of_scan [OF assms(1,2), of e] assms(3,4)
  have ok: "fst (chain_of e p (Some ts)) = Ok200 j" by simp
  have bt: "bnum (last ts) mod 256 = 0 \<longrightarrow> j_blocktime j = 0"
    by (simp add: assms(4) make_json_target nonNeo_iff)
  have tp: "j_blocktime j = 0 \<longrightarrow>
      j_tcountpsec j = round_js e (if tcount (last ts) = 0 then NaN else PosInfinity)"
    by (simp add: assms(4) make_json_target js_div_zero)
  have av: "j_blocktime_avg j = round_js e NaN \<and> j_tcount_avg j = round_js e NaN \<and>
      j_tcountpsec_avg j = round_js e NaN \<and> j_difficulty_avg j = round_js e NaN \<and>
      j_hashrate_avg j = round_js e NaN \<and> j_pseudorate_avg j = round_js e NaN"
    if all: "\<forall>t\<in>set ts. bnum t mod 256 = 0"
  proof -
    from all have f: "filter (\<lambda>t. \<not> is_boundary t) (rev ts) = []" "filter is_normal (rev ts) = []"
      "filter is_pseudo (rev ts) = []"
      by (simp_all add: filter_empty_conv is_boundary_def is_normal_def is_pseudo_def)
    have "nonNeogenesis ?a = 0" "blockTimes ?a = 0" "difficulties ?a = 0" "pseudorate ?a = 0"
      "transactions ?a = 0" "hashesTimes ?a = 0" "hashes ?a = NatNum 0"
      by (simp_all add: scan_nonNeogenesis scan_blockTimes scan_difficulties scan_pseudorate
          scan_transactions scan_hashesTimes scan_hashes acc0_fields f)
    then show ?thesis
      by (simp add: assms(4) make_json_avgs js_div_zero num_div_def)
  qed
  from ok bt tp av show ?thesis by blast
qed

theorem zero_divisor_passes_through_witness:
  "[sample_trailer 256 5] \<noteq> [] \<and>
   chain_v (scan sample_env (last [sample_trailer 256 5]) acc0 (rev [sample_trailer 256 5]))
     = Some (5744, 1000) \<and>
   bnum (last [sample_trailer 256 5]) mod 256 = 0 \<and>
   fst (chain_of sample_env 256 (Some [sample_trailer 256 5]))
     = Ok200 (make_json sample_env (sample_trailer 256 5)
         (scan sample_env (sample_trailer 256 5) acc0 [sample_trailer 256 5]) (5744, 1000)) \<and>
   j_tcountpsec (make_json sample_env (sample_trailer 256 5)
         (scan sample_env (sample_trailer 256 5) acc0 [sample_trailer 256 5]) (5744, 1000))
     = PosInfinity \<and>
   j_blocktime_avg (make_json sample_env (sample_trailer 256 5)
         (scan sample_env (sample_trailer 256 5) acc0 [sample_trailer 256 5]) (5744, 1000))
     = NaN"
proof -
  have h1: "[sample_trailer 256 5] \<noteq> []" by simp
  have h2: "(256::int) < 0 \<or> 256 = int (bnum (last [sample_trailer 256 5]))"
    by (simp add: sample_trailer_def)
  have h3: "chain_v (scan sample_env (last [sample_trailer 256 5]) acc0 (rev [sample_trailer 256 5]))
     = Some (5744, 1000)"
    by (simp add: acc0_def step_def nonNeo_iff not_supply_def neogenesis_def
      sample_trailer_def sample_env_def Let_def)
  have h4: "\<forall>t\<in>set [sample_trailer 256 5]. bnum t mod 256 = 0"
    by (simp add: sample_trailer_def)
  have b: "bnum (sample_trailer 256 5) mod 256 = 0" "tcount (sample_trailer 256 5) = 5"
    "\<And>x. round_js sample_env x = x"
    by (simp_all add: sample_trailer_def sample_env_def)
  from zero_divisor_passes_through [OF h1 h2 h3 refl] h3 h4
  show ?thesis by (simp add: b)
qed

end
